theory Spec2Isabelle
  imports Complex_Main
begin

section \<open>HarDNet: link resolution, block assembly and network construction\<close>

text \<open>
  A shallow embedding of \<^verbatim>\<open>hardnet.py\<close>. Python numbers (\<^verbatim>\<open>growth_rate\<close>,
  \<^verbatim>\<open>grmul\<close>, the running \<^verbatim>\<open>out_channels\<close> before rounding) are exact rationals:
  the rounding error of binary floating point is not part of the model. Integers are
  unbounded, as in Python. Tensors are represented by their channel width only. The
  interpreter's recursion limit and running time are not modelled, nor is the validation
  the tensor library performs when a module is constructed.
\<close>

subsection \<open>Errors\<close>

text \<open>
  The exceptions of the source, raised explicitly or by the interpreter. \<open>RuntimeError\<close>
  is what the tensor library raises on a width mismatch or an empty concatenation;
  \<open>LoadError\<close> stands for any failure of the weight store.
\<close>

datatype error =
    RecursionError
  | IndexError
  | RuntimeError
  | ValueError string
  | UnboundLocalError string
  | KeyError string
  | FileNotFoundError string
  | LoadError string

subsection \<open>Python primitives\<close>

text \<open>\<^verbatim>\<open>int(x)\<close> on a number truncates toward zero.\<close>

definition py_int :: "rat \<Rightarrow> int" where
  "py_int x = (if 0 \<le> x then \<lfloor>x\<rfloor> else \<lceil>x\<rceil>)"

text \<open>\<^verbatim>\<open>range(n)\<close>: empty when \<^verbatim>\<open>n\<close> is not positive.\<close>

definition py_range :: "int \<Rightarrow> int list" where
  "py_range n = map int [0..<nat n]"

text \<open>\<^verbatim>\<open>xs[i]\<close>: a negative index counts from the end, an index out of range raises.\<close>

definition py_index :: "'a list \<Rightarrow> int \<Rightarrow> error + 'a" where
  "py_index xs i =
     (if 0 \<le> i \<and> i < int (length xs) then Inr (xs ! nat i)
      else if i < 0 \<and> - int (length xs) \<le> i then Inr (xs ! nat (int (length xs) + i))
      else Inl IndexError)"

text \<open>A loop whose body may raise: the first error ends it.\<close>

fun for_each :: "('s \<Rightarrow> 'a \<Rightarrow> error + 's) \<Rightarrow> 's \<Rightarrow> 'a list \<Rightarrow> error + 's" where
  "for_each body s [] = Inr s"
| "for_each body s (x # xs) =
     (case body s x of Inl e \<Rightarrow> Inl e | Inr s' \<Rightarrow> for_each body s' xs)"

subsection \<open>\<^verbatim>\<open>HarDBlock.get_link\<close>\<close>

text \<open>
  The body of the scan \<^verbatim>\<open>for i in range(10)\<close>: the state is the pair of the running
  \<^verbatim>\<open>out_channels\<close> and the list \<^verbatim>\<open>link\<close>.
\<close>

definition link_step :: "int \<Rightarrow> rat \<Rightarrow> rat \<times> int list \<Rightarrow> nat \<Rightarrow> rat \<times> int list" where
  "link_step layer grmul s i =
     (case s of (outch, link) \<Rightarrow>
        let dv = 2 ^ i in
        if layer mod dv = 0 then
          (let k = layer - dv; link' = link @ [k] in
           if i > 0 then (outch * grmul, link') else (outch, link'))
        else (outch, link))"

definition link_scan :: "int \<Rightarrow> rat \<Rightarrow> rat \<Rightarrow> rat \<times> int list" where
  "link_scan layer growth_rate grmul =
     foldl (link_step layer grmul) (growth_rate, []) [0..<10]"

text \<open>
  The second loop, \<^verbatim>\<open>for i in link: ch,_,_ = self.get_link(i, ...); in_channels += ch\<close>,
  over an arbitrary resolver \<open>f\<close>; a call that does not return leaves no result.
\<close>

primrec sum_channels ::
  "(int \<Rightarrow> (int \<times> int \<times> int list) option) \<Rightarrow> int list \<Rightarrow> int \<Rightarrow> int option" where
  "sum_channels f [] inch = Some inch"
| "sum_channels f (i # link) inch =
     Option.bind (f i) (\<lambda>r. sum_channels f link (inch + fst r))"

lemma sum_channels_mono [partial_function_mono]:
  assumes "\<And>i. mono_option (\<lambda>f. B f i)"
  shows "mono_option (\<lambda>f. sum_channels (B f) link acc)"
  by (induction link arbitrary: acc) (auto intro!: partial_function_mono assms)

text \<open>
  The resolver returns \<^verbatim>\<open>(out_channels, in_channels, link)\<close>. The recursion of the source
  has no base case below zero, so the result is optional: \<open>None\<close> stands for a call that
  never returns.
\<close>

partial_function (option) get_link ::
  "int \<Rightarrow> int \<Rightarrow> rat \<Rightarrow> rat \<Rightarrow> (int \<times> int \<times> int list) option" where
  "get_link layer base_ch growth_rate grmul =
     (if layer = 0 then Some (base_ch, 0, [])
      else (case link_scan layer growth_rate grmul of (raw, link) \<Rightarrow>
        let outch = py_int (of_int (py_int (raw + 1)) / 2) * 2 in
        Option.bind (sum_channels (\<lambda>i. get_link i base_ch growth_rate grmul) link 0)
          (\<lambda>inch. Some (outch, inch, link))))"

declare get_link.simps [code]


text \<open>The first component of the resolver's result, without the recursion.\<close>

definition out_width :: "int \<Rightarrow> int \<Rightarrow> rat \<Rightarrow> rat \<Rightarrow> int" where
  "out_width layer base_ch growth_rate grmul =
     (if layer = 0 then base_ch
      else py_int (of_int (py_int (fst (link_scan layer growth_rate grmul) + 1)) / 2) * 2)"

subsection \<open>Modules and the layer factories\<close>

text \<open>
  The \<^verbatim>\<open>torch.nn\<close> modules the source instantiates, with the arguments it passes:
  \<open>Conv2d in_channels out_channels kernel_size stride padding groups bias\<close>,
  \<open>MaxPool2d kernel_size stride padding\<close>, \<open>Dropout p\<close>,
  \<open>AdaptiveAvgPool2d h w\<close>, \<open>Linear in_features out_features\<close>; a
  \<open>Sequential\<close> lists its children with their names.
\<close>

datatype module =
    Conv2d int int int int int int bool
  | BatchNorm2d int
  | ReLU6
  | MaxPool2d int int int
  | Dropout rat
  | AdaptiveAvgPool2d int int
  | Flatten
  | Linear int int
  | Sequential "(string \<times> module) list"

text \<open>The parameter \<^verbatim>\<open>dropout\<close> of the source's factories is never read.\<close>

definition conv_layer :: "int \<Rightarrow> int \<Rightarrow> int \<Rightarrow> int \<Rightarrow> bool \<Rightarrow> module" where
  "conv_layer in_channels out_channels kernel' stride bias =
     (let groups = 1 in
      Sequential
        [(''conv'', Conv2d in_channels out_channels kernel' stride (kernel' div 2) groups bias),
         (''norm'', BatchNorm2d out_channels),
         (''relu'', ReLU6)])"

definition dw_conv_layer :: "int \<Rightarrow> int \<Rightarrow> int \<Rightarrow> bool \<Rightarrow> module" where
  "dw_conv_layer in_channels out_channels stride bias =
     (let groups = in_channels in
      Sequential
        [(''dwconv'', Conv2d groups groups 3 stride 1 groups bias),
         (''norm'', BatchNorm2d groups)])"

definition comb_conv_layer :: "int \<Rightarrow> int \<Rightarrow> int \<Rightarrow> int \<Rightarrow> module" where
  "comb_conv_layer in_channels out_channels kernel' stride =
     Sequential
       [(''layer1'', conv_layer in_channels out_channels kernel' 1 False),
        (''layer2'', dw_conv_layer out_channels out_channels stride False)]"

text \<open>
  A tensor is its channel width. Applying a module: a convolution, a normalisation and
  a linear map accept only the width they were built for (the tensor library raises
  otherwise); the other modules keep the width (for \<open>Flatten\<close> this is the feature
  count after the pooling to \<open>1 \<times> 1\<close> that precedes it in the source).
\<close>

type_synonym tensor = int

fun module_forward :: "module \<Rightarrow> tensor \<Rightarrow> error + tensor"
  and sequential_forward :: "(string \<times> module) list \<Rightarrow> tensor \<Rightarrow> error + tensor" where
  "module_forward (Conv2d ic oc k s p g b) x = (if x = ic then Inr oc else Inl RuntimeError)"
| "module_forward (BatchNorm2d n) x = (if x = n then Inr x else Inl RuntimeError)"
| "module_forward ReLU6 x = Inr x"
| "module_forward (MaxPool2d k s p) x = Inr x"
| "module_forward (Dropout p) x = Inr x"
| "module_forward (AdaptiveAvgPool2d h w) x = Inr x"
| "module_forward Flatten x = Inr x"
| "module_forward (Linear i oc) x = (if x = i then Inr oc else Inl RuntimeError)"
| "module_forward (Sequential ms) x = sequential_forward ms x"
| "sequential_forward [] x = Inr x"
| "sequential_forward (nm # ms) x =
     (case module_forward (snd nm) x of Inl e \<Rightarrow> Inl e | Inr y \<Rightarrow> sequential_forward ms y)"

text \<open>\<^verbatim>\<open>torch.cat(ts, 1)\<close>: the widths add up; an empty list is refused.\<close>

definition cat :: "tensor list \<Rightarrow> error + tensor" where
  "cat ts = (if ts = [] then Inl RuntimeError else Inr (sum_list ts))"

subsection \<open>\<^verbatim>\<open>HarDBlock\<close>\<close>

record HarDBlock =
  keepBase :: bool
  links :: "int list list"
  out_channels :: int
  layers :: "module list"

text \<open>
  The body of \<^verbatim>\<open>for i in range(n_layers)\<close> in \<^verbatim>\<open>__init__\<close>, on the state
  \<^verbatim>\<open>(self.links, layers_, self.out_channels)\<close>. A resolver call that does not return
  surfaces as Python's \<^verbatim>\<open>RecursionError\<close>.
\<close>

definition init_step ::
  "int \<Rightarrow> rat \<Rightarrow> rat \<Rightarrow> int \<Rightarrow> bool \<Rightarrow> int list list \<times> module list \<times> int \<Rightarrow> int
     \<Rightarrow> error + int list list \<times> module list \<times> int" where
  "init_step in_channels growth_rate grmul n_layers dwconv s i =
     (case s of (lks, layers', acc) \<Rightarrow>
        (case get_link (i + 1) in_channels growth_rate grmul of
           None \<Rightarrow> Inl RecursionError
         | Some (outch, inch, link) \<Rightarrow>
             Inr (lks @ [link],
                  layers' @ [if dwconv then comb_conv_layer inch outch 1 1
                             else conv_layer inch outch 3 1 False],
                  if i mod 2 = 0 \<or> i = n_layers - 1 then acc + outch else acc)))"

definition HarDBlock_init ::
  "int \<Rightarrow> rat \<Rightarrow> rat \<Rightarrow> int \<Rightarrow> bool \<Rightarrow> bool \<Rightarrow> bool \<Rightarrow> error + HarDBlock" where
  "HarDBlock_init in_channels growth_rate grmul n_layers keepBase' residual_out dwconv =
     (case for_each (init_step in_channels growth_rate grmul n_layers dwconv) ([], [], 0)
             (py_range n_layers) of
        Inl e \<Rightarrow> Inl e
      | Inr (lks, layers', acc) \<Rightarrow>
          Inr \<lparr>keepBase = keepBase', links = lks, out_channels = acc, layers = layers'\<rparr>)"

definition get_out_ch :: "HarDBlock \<Rightarrow> int" where
  "get_out_ch self = out_channels self"

text \<open>\<^verbatim>\<open>for i in link: tin.append(layers_[i])\<close>\<close>

fun gather :: "tensor list \<Rightarrow> int list \<Rightarrow> error + tensor list" where
  "gather layers' [] = Inr []"
| "gather layers' (i # link) =
     (case py_index layers' i of
        Inl e \<Rightarrow> Inl e
      | Inr t \<Rightarrow> (case gather layers' link of Inl e \<Rightarrow> Inl e | Inr tin \<Rightarrow> Inr (t # tin)))"

text \<open>The body of \<^verbatim>\<open>for layer in range(len(self.layers))\<close> in \<^verbatim>\<open>forward\<close>.\<close>

definition forward_step :: "HarDBlock \<Rightarrow> tensor list \<Rightarrow> int \<Rightarrow> error + tensor list" where
  "forward_step self layers' layer =
     (case py_index (links self) layer of
        Inl e \<Rightarrow> Inl e
      | Inr link \<Rightarrow>
     (case gather layers' link of
        Inl e \<Rightarrow> Inl e
      | Inr tin \<Rightarrow>
     (case (if length tin > 1 then cat tin else py_index tin 0) of
        Inl e \<Rightarrow> Inl e
      | Inr x \<Rightarrow>
     (case py_index (layers self) layer of
        Inl e \<Rightarrow> Inl e
      | Inr m \<Rightarrow>
     (case module_forward m x of
        Inl e \<Rightarrow> Inl e
      | Inr out \<Rightarrow> Inr (layers' @ [out]))))))"

text \<open>
  The indices the final loop of \<^verbatim>\<open>forward\<close> gathers from \<^verbatim>\<open>t\<close> produced tensors, and the
  layer indices \<^verbatim>\<open>i + 1\<close> whose width \<^verbatim>\<open>__init__\<close> adds to \<^verbatim>\<open>self.out_channels\<close>.
\<close>

definition forward_selected :: "bool \<Rightarrow> int \<Rightarrow> int list" where
  "forward_selected keep t =
     filter (\<lambda>i. (i = 0 \<and> keep) \<or> i = t - 1 \<or> i mod 2 = 1) (py_range t)"

definition init_selected :: "int \<Rightarrow> int list" where
  "init_selected n_layers =
     map (\<lambda>i. i + 1) (filter (\<lambda>i. i mod 2 = 0 \<or> i = n_layers - 1) (py_range n_layers))"

definition forward :: "HarDBlock \<Rightarrow> tensor \<Rightarrow> error + tensor" where
  "forward self x =
     (case for_each (forward_step self) [x] (py_range (int (length (layers self)))) of
        Inl e \<Rightarrow> Inl e
      | Inr layers' \<Rightarrow>
          (case gather layers' (forward_selected (keepBase self) (int (length layers'))) of
             Inl e \<Rightarrow> Inl e
           | Inr outs \<Rightarrow> cat outs))"

subsection \<open>String formatting\<close>

text \<open>\<^verbatim>\<open>"%d" % n\<close> and \<^verbatim>\<open>"%s" % n\<close> for an integer: its decimal digits, with a sign.\<close>

fun str_nat :: "nat \<Rightarrow> string" where
  "str_nat n =
     (if n < 10 then [''0123456789'' ! n] else str_nat (n div 10) @ [''0123456789'' ! (n mod 10)])"

declare str_nat.simps [simp del]

definition py_str :: "int \<Rightarrow> string" where
  "py_str i = (if i < 0 then CHR ''-'' # str_nat (nat (- i)) else str_nat (nat i))"

text \<open>\<^verbatim>\<open>str.lower\<close> on ASCII text.\<close>

definition lower_char :: "char \<Rightarrow> char" where
  "lower_char c =
     (case map_of (zip ''ABCDEFGHIJKLMNOPQRSTUVWXYZ'' ''abcdefghijklmnopqrstuvwxyz'') c of
        None \<Rightarrow> c
      | Some d \<Rightarrow> d)"

definition lower :: "string \<Rightarrow> string" where
  "lower s = map lower_char s"

subsection \<open>\<^verbatim>\<open>HarDNet\<close>\<close>

text \<open>
  The local variables the \<^verbatim>\<open>if arch == ...\<close> chain of \<^verbatim>\<open>HarDNet.__init__\<close> binds. The
  branch for 39 does not assign \<^verbatim>\<open>drop_rate\<close>: the variable stays unbound (\<open>None\<close>).
\<close>

record arch_locals =
  first_ch :: "int list"
  ch_list :: "int list"
  grmul_of :: rat
  gr :: "int list"
  n_layers_of :: "int list"
  downSamp :: "int list"
  drop_rate :: "rat option"

definition arch_branch :: "int \<Rightarrow> error + arch_locals" where
  "arch_branch arch =
     (if arch = 68 then
        Inr \<lparr>first_ch = [32, 64], ch_list = [128, 256, 320, 640, 1024], grmul_of = 17 / 10,
             gr = [14, 16, 20, 40, 160], n_layers_of = [8, 16, 16, 16, 4],
             downSamp = [1, 0, 1, 1, 0], drop_rate = Some (1 / 10)\<rparr>
      else if arch = 85 then
        Inr \<lparr>first_ch = [48, 96], ch_list = [192, 256, 320, 480, 720, 1280], grmul_of = 17 / 10,
             gr = [24, 24, 28, 36, 48, 256], n_layers_of = [8, 16, 16, 16, 16, 4],
             downSamp = [1, 0, 1, 0, 1, 0], drop_rate = Some (2 / 10)\<rparr>
      else if arch = 39 then
        Inr \<lparr>first_ch = [24, 48], ch_list = [96, 320, 640, 1024], grmul_of = 16 / 10,
             gr = [16, 20, 64, 160], n_layers_of = [4, 16, 8, 4],
             downSamp = [1, 1, 1, 0], drop_rate = None\<rparr>
      else Inl (ValueError (''Architecture type '' @ py_str arch @ '' is not supported'')))"

text \<open>
  The entries of \<^verbatim>\<open>self.base\<close>. The parameters of the network are not modelled;
  \<open>weights_from\<close> records the URL or file \<^verbatim>\<open>load_state_dict\<close> took them from.
\<close>

datatype stage = Layer module | Block HarDBlock

record HarDNet =
  base :: "stage list"
  weights_from :: "string option"

text \<open>
  What the surroundings decide: whether \<^verbatim>\<open>torch\<close> has the attribute \<^verbatim>\<open>hub\<close>, which
  paths are files, and how fetching a checkpoint from a URL or reading it from a file and
  loading it into the network ends (\<open>None\<close>: without an error).
\<close>

record environment =
  has_hub :: bool
  isfile :: "string \<Rightarrow> bool"
  load_from_url :: "string \<Rightarrow> error option"
  load_from_file :: "string \<Rightarrow> error option"

text \<open>The body of \<^verbatim>\<open>for i in range(blks)\<close>, on the state \<^verbatim>\<open>(ch, self.base)\<close>.\<close>

definition block_step ::
  "arch_locals \<Rightarrow> int \<Rightarrow> bool \<Rightarrow> bool \<Rightarrow> int \<Rightarrow> int \<times> stage list \<Rightarrow> int
     \<Rightarrow> error + int \<times> stage list" where
  "block_step v arch depth_wise max_pool blks s i =
     (case s of (ch, stages) \<Rightarrow>
     (case py_index (gr v) i of
        Inl e \<Rightarrow> Inl e
      | Inr gr_i \<Rightarrow>
     (case py_index (n_layers_of v) i of
        Inl e \<Rightarrow> Inl e
      | Inr n_i \<Rightarrow>
     (case HarDBlock_init ch (of_int gr_i) (grmul_of v) n_i False False depth_wise of
        Inl e \<Rightarrow> Inl e
      | Inr blk \<Rightarrow>
     (let ch1 = get_out_ch blk;
          stages1 = stages @ [Block blk];
          stages2 = (if i = blks - 1 \<and> arch = 85 then stages1 @ [Layer (Dropout (1 / 10))]
                     else stages1)
      in
     (case py_index (ch_list v) i of
        Inl e \<Rightarrow> Inl e
      | Inr ch_i \<Rightarrow>
     (let stages3 = stages2 @ [Layer (conv_layer ch1 ch_i 1 1 False)];
          ch2 = ch_i
      in
     (case py_index (downSamp v) i of
        Inl e \<Rightarrow> Inl e
      | Inr ds \<Rightarrow>
          Inr (ch2,
               if ds = 1 then
                 (if max_pool then stages3 @ [Layer (MaxPool2d 2 2 0)]
                  else stages3 @ [Layer (dw_conv_layer ch2 ch2 2 False)])
               else stages3)))))))))"

definition checkpoint_urls :: "(string \<times> string) list" where
  "checkpoint_urls =
     [(''HarDNet39_DS'', ''https://ping-chao.com/hardnet/hardnet39ds-0e6c6fa9.pth''),
      (''HarDNet68'', ''https://ping-chao.com/hardnet/hardnet68-5d684880.pth''),
      (''HarDNet68DS'', ''https://ping-chao.com/hardnet/hardnet68ds-632474d2.pth''),
      (''HarDNet85'', ''https://ping-chao.com/hardnet/hardnet85-a28faa00.pth'')]"

text \<open>The branch \<^verbatim>\<open>if pretrained:\<close>. The closing \<^verbatim>\<open>print\<close> is left out.\<close>

definition load_pretrained ::
  "environment \<Rightarrow> bool \<Rightarrow> int \<Rightarrow> string \<Rightarrow> HarDNet \<Rightarrow> error + HarDNet" where
  "load_pretrained env depth_wise arch weight_path self =
     (let codename0 = ''HarDNet'' @ py_str arch;
          arch_codename = (if depth_wise then codename0 @ ''DS'' else codename0)
      in
      if has_hub env then
        (case map_of checkpoint_urls arch_codename of
           None \<Rightarrow> Inl (KeyError arch_codename)
         | Some checkpoint \<Rightarrow>
             (case load_from_url env checkpoint of
                Some e \<Rightarrow> Inl e
              | None \<Rightarrow> Inr (self\<lparr>weights_from := Some checkpoint\<rparr>)))
      else
        (let weight_file = weight_path @ lower arch_codename @ ''.pth'' in
         if \<not> isfile env weight_file then Inl (FileNotFoundError weight_file)
         else
           (case load_from_file env weight_file of
              Some e \<Rightarrow> Inl e
            | None \<Rightarrow> Inr (self\<lparr>weights_from := Some weight_file\<rparr>))))"

definition HarDNet_init ::
  "environment \<Rightarrow> bool \<Rightarrow> int \<Rightarrow> bool \<Rightarrow> string \<Rightarrow> error + HarDNet" where
  "HarDNet_init env depth_wise arch pretrained weight_path =
     (case arch_branch arch of
        Inl e \<Rightarrow> Inl e
      | Inr v \<Rightarrow>
     (let second_kernel = (if depth_wise then 1 else 3);
          max_pool = (if depth_wise then False else True);
          drop = (if depth_wise then Some (5 / 100) else drop_rate v);
          blks = int (length (n_layers_of v))
      in
     (case py_index (first_ch v) 0 of
        Inl e \<Rightarrow> Inl e
      | Inr first0 \<Rightarrow>
     (case py_index (first_ch v) 1 of
        Inl e \<Rightarrow> Inl e
      | Inr first1 \<Rightarrow>
     (let stem = [Layer (conv_layer 3 first0 3 2 False),
                  Layer (conv_layer first0 first1 second_kernel 1 False),
                  (if max_pool then Layer (MaxPool2d 3 2 1)
                   else Layer (dw_conv_layer first1 first1 2 False))]
      in
     (case for_each (block_step v arch depth_wise max_pool blks) (first1, stem) (py_range blks) of
        Inl e \<Rightarrow> Inl e
      | Inr (ch, stages) \<Rightarrow>
     (case py_index (ch_list v) (blks - 1) of
        Inl e \<Rightarrow> Inl e
      | Inr ch_last \<Rightarrow>
     (case drop of
        None \<Rightarrow> Inl (UnboundLocalError ''drop_rate'')
      | Some p \<Rightarrow>
     (let self = \<lparr>base = stages @
                    [Layer (Sequential [(''0'', AdaptiveAvgPool2d 1 1), (''1'', Flatten),
                                        (''2'', Dropout p), (''3'', Linear ch_last 1000)])],
                  weights_from = None\<rparr>
      in
      if pretrained then load_pretrained env depth_wise arch weight_path self
      else Inr self)))))))))"

text \<open>An environment with \<^verbatim>\<open>torch.hub\<close>, no local files, and loads that succeed.\<close>

definition hub_env :: environment where
  "hub_env = \<lparr>has_hub = True, isfile = (\<lambda>f. False),
              load_from_url = (\<lambda>u. None), load_from_file = (\<lambda>f. None)\<rparr>"

subsection \<open>Closed forms used in the proofs\<close>

text \<open>
  The input width the resolver reports for a layer, the module \<^verbatim>\<open>__init__\<close> builds for it,
  the block \<^verbatim>\<open>__init__\<close> returns, and the list of tensors \<^verbatim>\<open>forward\<close> has produced
  after \<open>j\<close> layers on an input of width \<open>c\<close>. They are proved equal to what the
  definitions above compute.
\<close>

definition in_width :: "int \<Rightarrow> int \<Rightarrow> rat \<Rightarrow> rat \<Rightarrow> int" where
  "in_width layer base_ch growth_rate grmul =
     sum_list (map (\<lambda>k. out_width k base_ch growth_rate grmul)
       (snd (link_scan layer growth_rate grmul)))"

definition layer_module :: "bool \<Rightarrow> int \<Rightarrow> int \<Rightarrow> rat \<Rightarrow> rat \<Rightarrow> module" where
  "layer_module dwconv layer base_ch growth_rate grmul =
     (if dwconv
      then comb_conv_layer (in_width layer base_ch growth_rate grmul)
             (out_width layer base_ch growth_rate grmul) 1 1
      else conv_layer (in_width layer base_ch growth_rate grmul)
             (out_width layer base_ch growth_rate grmul) 3 1 False)"

definition built_block :: "int \<Rightarrow> rat \<Rightarrow> rat \<Rightarrow> int \<Rightarrow> bool \<Rightarrow> bool \<Rightarrow> HarDBlock" where
  "built_block c g m n kb dw =
     \<lparr>keepBase = kb,
      links = map (\<lambda>i. snd (link_scan (i + 1) g m)) (py_range n),
      out_channels = sum_list (map (\<lambda>l. out_width l c g m) (init_selected n)),
      layers = map (\<lambda>i. layer_module dw (i + 1) c g m) (py_range n)\<rparr>"

definition produced :: "int \<Rightarrow> rat \<Rightarrow> rat \<Rightarrow> nat \<Rightarrow> tensor list" where
  "produced c g m j = map (\<lambda>k. out_width k c g m) (map int [0..<Suc j])"

section \<open>Properties of the link resolver\<close>

lemma foldl_link_step:
  "foldl (link_step layer m) (oc, link) js =
     (oc * m ^ length (filter (\<lambda>i. 0 < i \<and> layer mod 2 ^ i = 0) js),
      link @ map (\<lambda>i. layer - 2 ^ i) (filter (\<lambda>i. layer mod 2 ^ i = 0) js))"
  by (induction js arbitrary: oc link) (simp_all add: link_step_def Let_def)

lemma snd_link_scan:
  "snd (link_scan layer g m) =
     map (\<lambda>i. layer - 2 ^ i) (filter (\<lambda>i. layer mod 2 ^ i = 0) [0..<10])"
  by (simp only: link_scan_def foldl_link_step snd_conv append_Nil)


lemma link_scan_bounds:
  assumes "1 \<le> layer" and "k \<in> set (snd (link_scan layer g m))"
  shows "0 \<le> k \<and> k < layer"
proof -
  from assms(2) obtain i where i: "layer mod 2 ^ i = 0" and k: "k = layer - 2 ^ i"
    by (auto simp: snd_link_scan)
  from i have "(2::int) ^ i dvd layer"
    by (simp add: dvd_eq_mod_eq_0)
  with assms(1) have "(2::int) ^ i \<le> layer"
    by (intro zdvd_imp_le) simp_all
  moreover have "(0::int) < 2 ^ i"
    by simp
  ultimately show ?thesis
    using k by simp
qed

lemma link_scan_descending: "sorted_wrt (>) (snd (link_scan layer g m))"
proof -
  have "sorted_wrt (<) (filter (\<lambda>i. layer mod 2 ^ i = 0) [0..<10])"
    by (rule sorted_wrt_filter) (rule sorted_wrt_upt)
  then have "sorted_wrt (>) (map (\<lambda>i. layer - 2 ^ i)
      (filter (\<lambda>i. layer mod 2 ^ i = 0) [0..<10]))"
    by (rule sorted_wrt_map_mono) simp
  then show ?thesis
    by (simp only: snd_link_scan)
qed

lemma link_scan_first:
  "snd (link_scan layer g m) = (layer - 1) # map (\<lambda>i. layer - 2 ^ i)
     (filter (\<lambda>i. layer mod 2 ^ i = 0) [1..<10])"
proof -
  have "[0..<10] = 0 # [1..<10]"
    by (simp add: upt_conv_Cons)
  then show ?thesis
    by (simp add: snd_link_scan)
qed

lemma sum_channels_Some:
  assumes "\<And>k. k \<in> set link \<Longrightarrow> \<exists>r. f k = Some r \<and> fst r = w k"
  shows "sum_channels f link acc = Some (acc + sum_list (map w link))"
  using assms
proof (induction link arbitrary: acc)
  case Nil
  then show ?case by simp
next
  case (Cons k link)
  have "\<exists>r. f k = Some r \<and> fst r = w k"
    by (rule Cons.prems) simp
  then obtain r where r: "f k = Some r" "fst r = w k"
    by blast
  have "sum_channels f link (acc + w k) = Some (acc + w k + sum_list (map w link))"
  proof (rule Cons.IH)
    fix j
    assume "j \<in> set link"
    then have "j \<in> set (k # link)"
      by simp
    then show "\<exists>r. f j = Some r \<and> fst r = w j"
      by (rule Cons.prems)
  qed
  with r show ?case
    by (simp add: add.assoc)
qed

text \<open>For a layer index that is not negative the resolver returns, and its result is:\<close>

lemma get_link_nonneg:
  assumes "0 \<le> layer"
  shows "get_link layer b g m =
     Some (out_width layer b g m,
           (if layer = 0 then 0
            else sum_list (map (\<lambda>k. out_width k b g m) (snd (link_scan layer g m)))),
           (if layer = 0 then [] else snd (link_scan layer g m)))"
  using assms
proof (induction "nat layer" arbitrary: layer rule: less_induct)
  case less
  show ?case
  proof (cases "layer = 0")
    case True
    then show ?thesis
      by (subst get_link.simps) (simp add: out_width_def)
  next
    case False
    with less.prems have pos: "1 \<le> layer"
      by simp
    have rec: "\<exists>r. get_link k b g m = Some r \<and> fst r = out_width k b g m"
      if "k \<in> set (snd (link_scan layer g m))" for k
    proof -
      from link_scan_bounds [OF pos that] have "0 \<le> k" "nat k < nat layer"
        by simp_all
      from less.hyps [OF this(2) this(1)] show ?thesis
        by simp
    qed
    have "sum_channels (\<lambda>i. get_link i b g m) (snd (link_scan layer g m)) 0 =
        Some (0 + sum_list (map (\<lambda>k. out_width k b g m) (snd (link_scan layer g m))))"
      by (rule sum_channels_Some) (rule rec)
    with False show ?thesis
      by (subst get_link.simps) (simp add: out_width_def case_prod_unfold Let_def)
  qed
qed

lemma get_link_pos:
  assumes "1 \<le> layer"
  shows "get_link layer b g m =
     Some (out_width layer b g m,
           sum_list (map (\<lambda>k. out_width k b g m) (snd (link_scan layer g m))),
           snd (link_scan layer g m))"
  using assms get_link_nonneg [of layer b g m] by simp




lemma link_scan_4: "snd (link_scan 4 g m) = [3, 2, 0]"
  by (simp add: snd_link_scan upt_conv_Cons)

section \<open>Properties of block construction and execution\<close>

lemma for_each_append:
  "for_each f s (xs @ ys) =
     (case for_each f s xs of Inl e \<Rightarrow> Inl e | Inr s' \<Rightarrow> for_each f s' ys)"
  by (induction xs arbitrary: s) (simp_all split: sum.splits)

lemma init_step_eq:
  assumes "0 \<le> i"
  shows "init_step c g m n dw (lks, ls, acc) i =
     Inr (lks @ [snd (link_scan (i + 1) g m)],
          ls @ [layer_module dw (i + 1) c g m],
          if i mod 2 = 0 \<or> i = n - 1 then acc + out_width (i + 1) c g m else acc)"
proof -
  from assms have "1 \<le> i + 1"
    by simp
  then show ?thesis
    by (simp add: init_step_def get_link_pos in_width_def layer_module_def)
qed

lemma for_each_init_step:
  assumes "\<forall>i\<in>set js. 0 \<le> i"
  shows "for_each (init_step c g m n dw) (lks, ls, acc) js =
     Inr (lks @ map (\<lambda>i. snd (link_scan (i + 1) g m)) js,
          ls @ map (\<lambda>i. layer_module dw (i + 1) c g m) js,
          acc + sum_list (map (\<lambda>i. out_width (i + 1) c g m)
                  (filter (\<lambda>i. i mod 2 = 0 \<or> i = n - 1) js)))"
  using assms
proof (induction js arbitrary: lks ls acc)
  case Nil
  then show ?case by simp
next
  case (Cons j js)
  then have "0 \<le> j" and rest: "\<forall>i\<in>set js. 0 \<le> i"
    by simp_all
  show ?case
    by (simp add: init_step_eq [OF \<open>0 \<le> j\<close>] Cons.IH [OF rest])
qed

lemma py_range_nonneg: "\<forall>i\<in>set (py_range n). 0 \<le> i"
  by (simp add: py_range_def)

lemma HarDBlock_init_eq: "HarDBlock_init c g m n kb ro dw = Inr (built_block c g m n kb dw)"
  by (simp add: HarDBlock_init_def for_each_init_step [OF py_range_nonneg] init_selected_def
      comp_def built_block_def)

lemma module_forward_layer_module:
  "module_forward (layer_module dw l c g m) (in_width l c g m) = Inr (out_width l c g m)"
  by (simp add: layer_module_def conv_layer_def comb_conv_layer_def dw_conv_layer_def Let_def)

lemma gather_in_range:
  assumes "\<forall>k\<in>set link. 0 \<le> k \<and> k < int (length xs)"
  shows "gather xs link = Inr (map (\<lambda>k. xs ! nat k) link)"
  using assms by (induction link) (simp_all add: py_index_def)

lemma produced_nth: "k \<le> j \<Longrightarrow> produced c g m j ! k = out_width (int k) c g m"
  by (simp add: produced_def del: upt_Suc)

lemma produced_Suc: "produced c g m (Suc j) = produced c g m j @ [out_width (int j + 1) c g m]"
  by (simp add: produced_def add.commute)

lemma gather_produced:
  assumes "\<forall>k\<in>set link. 0 \<le> k \<and> k \<le> int j"
  shows "gather (produced c g m j) link = Inr (map (\<lambda>k. out_width k c g m) link)"
proof -
  have "gather (produced c g m j) link = Inr (map (\<lambda>k. produced c g m j ! nat k) link)"
    using assms by (intro gather_in_range) (auto simp: produced_def)
  also have "map (\<lambda>k. produced c g m j ! nat k) link = map (\<lambda>k. out_width k c g m) link"
  proof (rule map_cong [OF refl])
    fix k
    assume "k \<in> set link"
    with assms have "0 \<le> k" "nat k \<le> j"
      by auto
    then show "produced c g m j ! nat k = out_width k c g m"
      by (simp add: produced_nth)
  qed
  finally show ?thesis .
qed

lemma link_nonempty: "snd (link_scan layer g m) \<noteq> []"
  by (simp add: link_scan_first)

lemma cat_or_first:
  assumes "ts \<noteq> []"
  shows "(if length ts > 1 then cat ts else py_index ts 0) = Inr (sum_list ts)"
proof (cases ts)
  case Nil
  with assms show ?thesis by simp
next
  case (Cons t ts')
  then show ?thesis
    by (cases ts') (simp_all add: cat_def py_index_def)
qed

lemma forward_step_produced:
  assumes "j < nat n"
  shows "forward_step (built_block c g m n kb dw) (produced c g m j) (int j) =
     Inr (produced c g m (Suc j))"
proof -
  let ?blk = "built_block c g m n kb dw"
  let ?link = "snd (link_scan (int j + 1) g m)"
  from assms(1) have lk: "py_index (links ?blk) (int j) = Inr ?link"
    by (auto simp: built_block_def py_index_def py_range_def)
  from assms(1) have ly: "py_index (layers ?blk) (int j) = Inr (layer_module dw (int j + 1) c g m)"
    by (auto simp: built_block_def py_index_def py_range_def)
  have "\<forall>k\<in>set ?link. 0 \<le> k \<and> k \<le> int j"
    using link_scan_bounds [of "int j + 1" _ g m] by fastforce
  then have ga: "gather (produced c g m j) ?link = Inr (map (\<lambda>k. out_width k c g m) ?link)"
    by (rule gather_produced)
  have "map (\<lambda>k. out_width k c g m) ?link \<noteq> []"
    by (simp add: link_nonempty)
  then have x: "(if length (map (\<lambda>k. out_width k c g m) ?link) > 1
        then cat (map (\<lambda>k. out_width k c g m) ?link)
        else py_index (map (\<lambda>k. out_width k c g m) ?link) 0) = Inr (in_width (int j + 1) c g m)"
    unfolding in_width_def by (rule cat_or_first)
  show ?thesis
    by (simp only: forward_step_def lk ga x ly sum.case module_forward_layer_module
        produced_Suc)
qed

lemma for_each_forward_step:
  assumes "j \<le> nat n"
  shows "for_each (forward_step (built_block c g m n kb dw)) (produced c g m 0) (map int [0..<j]) =
     Inr (produced c g m j)"
  using assms
proof (induction j)
  case 0
  then show ?case by simp
next
  case (Suc j)
  then have "j < nat n" "j \<le> nat n"
    by simp_all
  then show ?case
    using Suc.IH forward_step_produced [of j n c g m kb dw]
    by (simp add: for_each_append)
qed

lemma py_range_Suc:
  assumes "0 \<le> n"
  shows "py_range (n + 1) = 0 # map (\<lambda>i. i + 1) (py_range n)"
proof -
  from assms have "nat (n + 1) = Suc (nat n)"
    by simp
  moreover have "[0..<Suc (nat n)] = 0 # map Suc [0..<nat n]"
    by (simp only: map_Suc_upt upt_conv_Cons zero_less_Suc)
  ultimately show ?thesis
    by (simp add: py_range_def comp_def)
qed

lemma forward_selected_init_selected:
  assumes "0 \<le> n"
  shows "forward_selected kb (n + 1) = (if kb \<or> n = 0 then [0] else []) @ init_selected n"
proof -
  define P where "P = (\<lambda>i. (i = 0 \<and> kb) \<or> i = n + 1 - 1 \<or> i mod 2 = 1)"
  have tail: "filter P (map (\<lambda>i. i + 1) (py_range n)) = init_selected n"
    unfolding filter_map comp_def init_selected_def
  proof (rule arg_cong [where f = "map (\<lambda>i. i + 1)"], rule filter_cong [OF refl])
    fix i
    assume "i \<in> set (py_range n)"
    then have "0 \<le> i"
      using py_range_nonneg by blast
    then have "i + 1 \<noteq> 0"
      by simp
    moreover have "((i + 1) mod 2 = 1) = (i mod 2 = 0)"
      by presburger
    moreover have "(i + 1 = n + 1 - 1) = (i = n - 1)"
      by auto
    ultimately show "P (i + 1) = (i mod 2 = 0 \<or> i = n - 1)"
      unfolding P_def by auto
  qed
  have head: "P 0 = (kb \<or> n = 0)"
    by (auto simp: P_def)
  have "forward_selected kb (n + 1) = filter P (0 # map (\<lambda>i. i + 1) (py_range n))"
    by (simp only: forward_selected_def py_range_Suc [OF assms] P_def)
  also have "\<dots> = (if P 0 then [0] else []) @ filter P (map (\<lambda>i. i + 1) (py_range n))"
    by simp
  finally show ?thesis
    by (simp only: head tail)
qed

lemma forward_selected_bounds:
  "k \<in> set (forward_selected kb t) \<Longrightarrow> 0 \<le> k \<and> k < t"
  by (auto simp: forward_selected_def py_range_def)

lemma forward_selected_last:
  assumes "1 \<le> t"
  shows "t - 1 \<in> set (forward_selected kb t)"
proof -
  from assms have "nat (t - 1) < nat t" and "int (nat (t - 1)) = t - 1"
    by simp_all
  then have "t - 1 \<in> set (py_range t)"
    unfolding py_range_def set_map set_upt by (metis atLeastLessThan_iff imageI le0)
  then show ?thesis
    by (simp add: forward_selected_def)
qed

lemma forward_built_block:
  "forward (built_block c g m n kb dw) c =
     Inr (sum_list (map (\<lambda>k. out_width k c g m) (forward_selected kb (int (nat n) + 1))))"
proof -
  let ?blk = "built_block c g m n kb dw"
  let ?sel = "forward_selected kb (int (nat n) + 1)"
  have len: "length (layers ?blk) = nat n"
    by (simp add: built_block_def py_range_def)
  have c: "[c] = produced c g m 0"
    by (simp add: produced_def out_width_def)
  have loop: "for_each (forward_step ?blk) [c] (py_range (int (length (layers ?blk)))) =
      Inr (produced c g m (nat n))"
    unfolding len c py_range_def nat_int by (rule for_each_forward_step) simp
  have plen: "int (length (produced c g m (nat n))) = int (nat n) + 1"
    by (simp add: produced_def)
  have "\<forall>k\<in>set ?sel. 0 \<le> k \<and> k \<le> int (nat n)"
  proof
    fix k
    assume "k \<in> set ?sel"
    then have "0 \<le> k \<and> k < int (nat n) + 1"
      by (rule forward_selected_bounds)
    then show "0 \<le> k \<and> k \<le> int (nat n)"
      by simp
  qed
  then have ga: "gather (produced c g m (nat n)) ?sel = Inr (map (\<lambda>k. out_width k c g m) ?sel)"
    by (rule gather_produced)
  have "int (nat n) + 1 - 1 \<in> set ?sel"
    by (rule forward_selected_last) simp
  then have "map (\<lambda>k. out_width k c g m) ?sel \<noteq> []"
    by auto
  then have ct: "cat (map (\<lambda>k. out_width k c g m) ?sel) =
      Inr (sum_list (map (\<lambda>k. out_width k c g m) ?sel))"
    by (simp only: cat_def if_False)
  have kb: "keepBase ?blk = kb"
    by (simp add: built_block_def)
  show ?thesis
    by (simp only: forward_def loop sum.case plen ga kb ct)
qed

lemma forward_declared_width:
  assumes "1 \<le> n"
  shows "forward (built_block c g m n kb dw) c =
     Inr (out_channels (built_block c g m n kb dw) + (if kb then c else 0))"
proof -
  from assms have n: "int (nat n) = n" "0 \<le> n" "n \<noteq> 0"
    by simp_all
  show ?thesis
    unfolding forward_built_block n(1) forward_selected_init_selected [OF n(2)]
    using n(3) by (simp add: built_block_def out_width_def)
qed

lemma set_py_range: "set (py_range t) = {i. 0 \<le> i \<and> i < t}"
proof (rule set_eqI)
  fix i
  show "i \<in> set (py_range t) \<longleftrightarrow> i \<in> {i. 0 \<le> i \<and> i < t}"
  proof
    assume "i \<in> set (py_range t)"
    then show "i \<in> {i. 0 \<le> i \<and> i < t}"
      by (auto simp: py_range_def)
  next
    assume "i \<in> {i. 0 \<le> i \<and> i < t}"
    then have "nat i < nat t" "int (nat i) = i"
      by simp_all
    then have "i \<in> int ` {0..<nat t}"
      by (metis atLeastLessThan_iff imageI le0)
    then show "i \<in> set (py_range t)"
      by (simp add: py_range_def)
  qed
qed





text \<open>
  Declared and produced width of a block with at least one layer, and the block with no
  layer at all: its only produced tensor is the input, which is also the last one.
\<close>

lemma block_output_width:
  assumes "1 \<le> n"
  shows "\<exists>b. HarDBlock_init c g m n kb ro dw = Inr b \<and>
     forward b c = Inr (get_out_ch b + (if kb then c else 0))"
  unfolding HarDBlock_init_eq get_out_ch_def
  using forward_declared_width [OF assms] by blast

lemma block_without_layers:
  assumes "n < 1"
  shows "\<exists>b. HarDBlock_init c g m n kb ro dw = Inr b \<and> get_out_ch b = 0 \<and>
     forward_selected (keepBase b) (int (length (layers b)) + 1) = [0] \<and>
     forward b x = Inr x"
  using assms
  by (simp add: HarDBlock_init_def py_range_def get_out_ch_def forward_selected_def forward_def
      py_index_def cat_def)

section \<open>Properties of network construction\<close>

lemma block_step_returns:
  assumes "0 \<le> i" and "i < int (length (gr v))" and "i < int (length (n_layers_of v))"
    and "i < int (length (ch_list v))" and "i < int (length (downSamp v))"
  shows "\<exists>s'. block_step v arch dw mp blks s i = Inr s'"
  using assms
  by (cases s) (simp add: block_step_def py_index_def HarDBlock_init_eq Let_def)

lemma block_loop_returns:
  assumes "\<forall>i\<in>set js. 0 \<le> i \<and> i < int (length (gr v)) \<and> i < int (length (n_layers_of v)) \<and>
      i < int (length (ch_list v)) \<and> i < int (length (downSamp v))"
  shows "\<exists>s'. for_each (block_step v arch dw mp blks) s js = Inr s'"
  using assms
proof (induction js arbitrary: s)
  case Nil
  then show ?case by simp
next
  case (Cons j js)
  then have "\<exists>s1. block_step v arch dw mp blks s j = Inr s1"
    by (intro block_step_returns) simp_all
  then obtain s1 where s1: "block_step v arch dw mp blks s j = Inr s1"
    by blast
  from Cons.prems have "\<exists>s'. for_each (block_step v arch dw mp blks) s1 js = Inr s'"
    by (intro Cons.IH) simp
  with s1 show ?case
    by simp
qed

lemma arch_loop_returns:
  assumes "arch_branch arch = Inr v"
  shows "\<exists>ch stages. for_each (block_step v arch dw mp blks) s
            (py_range (int (length (n_layers_of v)))) = Inr (ch, stages)"
proof -
  from assms have "length (gr v) = length (n_layers_of v) \<and>
      length (ch_list v) = length (n_layers_of v) \<and>
      length (downSamp v) = length (n_layers_of v)"
    by (auto simp: arch_branch_def split: if_splits)
  then have "\<forall>i\<in>set (py_range (int (length (n_layers_of v)))).
      0 \<le> i \<and> i < int (length (gr v)) \<and> i < int (length (n_layers_of v)) \<and>
      i < int (length (ch_list v)) \<and> i < int (length (downSamp v))"
    by (simp add: set_py_range)
  then have "\<exists>s'. for_each (block_step v arch dw mp blks) s
            (py_range (int (length (n_layers_of v)))) = Inr s'"
    by (rule block_loop_returns)
  then show ?thesis
    by auto
qed

lemma arch39: "arch_branch 39 =
  Inr \<lparr>first_ch = [24, 48], ch_list = [96, 320, 640, 1024], grmul_of = 16 / 10,
       gr = [16, 20, 64, 160], n_layers_of = [4, 16, 8, 4],
       downSamp = [1, 1, 1, 0], drop_rate = None\<rparr>"
  by (simp add: arch_branch_def)

lemma HarDNet_init_39_plain:
  "HarDNet_init env False 39 pretrained weight_path = Inl (UnboundLocalError ''drop_rate'')"
proof -
  let ?v = "\<lparr>first_ch = [24, 48], ch_list = [96, 320, 640, 1024], grmul_of = 16 / 10,
       gr = [16, 20, 64, 160], n_layers_of = [4, 16, 8, 4],
       downSamp = [1, 1, 1, 0], drop_rate = None\<rparr>"
  obtain ch stages where "for_each (block_step ?v 39 False True (int (length (n_layers_of ?v))))
      (48, [Layer (conv_layer 3 24 3 2 False), Layer (conv_layer 24 48 3 1 False),
            Layer (MaxPool2d 3 2 1)])
      (py_range (int (length (n_layers_of ?v)))) = Inr (ch, stages)"
    using arch_loop_returns [OF arch39] by blast
  then show ?thesis
    by (simp add: HarDNet_init_def arch39 py_index_def)
qed

lemma HarDNet_init_depth_wise:
  assumes "arch = 39 \<or> arch = 68 \<or> arch = 85"
  shows "\<exists>self. HarDNet_init env True arch pretrained weight_path =
     (if pretrained then load_pretrained env True arch weight_path self else Inr self)"
proof -
  from assms obtain v where v: "arch_branch arch = Inr v"
    by (auto simp: arch_branch_def)
  from v assms have f: "py_index (first_ch v) 0 = Inr (first_ch v ! 0)"
    "py_index (first_ch v) 1 = Inr (first_ch v ! 1)"
    "\<exists>c. py_index (ch_list v) (int (length (n_layers_of v)) - 1) = Inr c"
    by (auto simp: arch_branch_def py_index_def split: if_splits)
  then obtain c where c: "py_index (ch_list v) (int (length (n_layers_of v)) - 1) = Inr c"
    by blast
  obtain ch stages where "for_each (block_step v arch True False (int (length (n_layers_of v))))
      (first_ch v ! 1, [Layer (conv_layer 3 (first_ch v ! 0) 3 2 False),
            Layer (conv_layer (first_ch v ! 0) (first_ch v ! 1) 1 1 False),
            Layer (dw_conv_layer (first_ch v ! 1) (first_ch v ! 1) 2 False)])
      (py_range (int (length (n_layers_of v)))) = Inr (ch, stages)"
    using arch_loop_returns [OF v] by blast
  then have "HarDNet_init env True arch pretrained weight_path =
     (if pretrained then load_pretrained env True arch weight_path
        \<lparr>base = stages @
           [Layer (Sequential [(''0'', AdaptiveAvgPool2d 1 1), (''1'', Flatten),
                               (''2'', Dropout (5 / 100)), (''3'', Linear c 1000)])],
         weights_from = None\<rparr>
      else Inr \<lparr>base = stages @
           [Layer (Sequential [(''0'', AdaptiveAvgPool2d 1 1), (''1'', Flatten),
                               (''2'', Dropout (5 / 100)), (''3'', Linear c 1000)])],
         weights_from = None\<rparr>)"
    by (simp add: HarDNet_init_def v f(1,2) c)
  then show ?thesis
    by (rule exI)
qed




section \<open>Claims about the link resolver\<close>

text \<open>
  C2, as stated: the link list is in ascending order of layer index, and layer 4 resolves to
  the link list \<open>[0, 2, 3]\<close>. The scan appends \<open>layer - 2 ^ i\<close> for growing \<open>i\<close>, so
  the list comes out in descending order: with \<open>base_ch = 20\<close>, \<open>growth_rate = 10\<close>
  and \<open>grmul = 1\<close>, layer 4 resolves to \<open>[3, 2, 0]\<close>, which is not sorted ascending.
\<close>

theorem get_link_layer4_not_ascending:
  "get_link 4 20 10 1 = Some (10, 40, [3, 2, 0]) \<and> \<not> sorted [3, 2, 0 :: int]"
  by code_simp

text \<open>
  C2, amended: for every layer index of at least 1 the resolver returns, its link list is in
  strictly descending order of layer index, and layer 4 resolves to the link list
  \<open>[3, 2, 0]\<close> whatever the configuration.
\<close>

theorem get_link_descending:
  assumes "1 \<le> layer"
  shows "(\<exists>oc ic link. get_link layer b g m = Some (oc, ic, link) \<and> sorted_wrt (>) link) \<and>
         (\<exists>oc ic. get_link 4 b g m = Some (oc, ic, [3, 2, 0]))"
  using link_scan_descending [of layer g m]
  by (simp add: get_link_pos [OF assms] get_link_pos [of 4] link_scan_4)

theorem get_link_descending_witness:
  "(1::int) \<le> 6 \<and>
   (\<exists>oc ic link. get_link 6 20 10 1 = Some (oc, ic, link) \<and> sorted_wrt (>) link) \<and>
   (\<exists>oc ic. get_link 4 20 10 1 = Some (oc, ic, [3, 2, 0]))"
  using get_link_descending [where layer = 6 and b = 20 and g = 10 and m = 1] by simp




text \<open>
  C5: for every layer index of at least 1 and every configuration, the resolver returns
  and every index in its link list is a non-negative integer strictly below the layer
  index.
\<close>

theorem get_link_indices_below_layer:
  assumes "1 \<le> layer"
  shows "\<exists>oc ic link. get_link layer b g m = Some (oc, ic, link) \<and>
           (\<forall>k\<in>set link. 0 \<le> k \<and> k < layer)"
  using link_scan_bounds [OF assms] by (simp add: get_link_pos [OF assms])

theorem get_link_indices_below_layer_witness:
  "(1::int) \<le> 4 \<and> (\<exists>oc ic link. get_link 4 20 10 1 = Some (oc, ic, link) \<and>
           (\<forall>k\<in>set link. 0 \<le> k \<and> k < 4))"
  using get_link_indices_below_layer [where layer = 4 and b = 20 and g = 10 and m = 1]
  by simp

text \<open>
  C6: for every layer index of at least 1 and every configuration, the resolver returns,
  each recursive call on an index of its link list returns, and the \<open>in_channels\<close> it
  reports is the sum of the \<open>out_channels\<close> those calls report; for index 0 the reported
  \<open>out_channels\<close> is \<open>base_ch\<close>.
\<close>

theorem get_link_in_channels:
  assumes "1 \<le> layer"
  shows "\<exists>oc ic link. get_link layer b g m = Some (oc, ic, link) \<and>
     (\<exists>rs. map (\<lambda>k. get_link k b g m) link = map Some rs \<and> ic = sum_list (map fst rs)) \<and>
     get_link 0 b g m = Some (b, 0, [])"
proof -
  let ?link = "snd (link_scan layer g m)"
  let ?r = "\<lambda>k. (out_width k b g m,
           (if k = 0 then 0
            else sum_list (map (\<lambda>j. out_width j b g m) (snd (link_scan k g m)))),
           (if k = 0 then [] else snd (link_scan k g m)))"
  have "map (\<lambda>k. get_link k b g m) ?link = map Some (map ?r ?link)"
    unfolding map_map
  proof (rule map_cong [OF refl])
    fix k
    assume "k \<in> set ?link"
    with link_scan_bounds [OF assms] have "0 \<le> k"
      by blast
    then show "get_link k b g m = (Some \<circ> ?r) k"
      by (simp add: get_link_nonneg)
  qed
  moreover have "sum_list (map (\<lambda>k. out_width k b g m) ?link) = sum_list (map fst (map ?r ?link))"
    by (simp add: comp_def)
  moreover have "get_link 0 b g m = Some (b, 0, [])"
    by (simp add: get_link_nonneg out_width_def)
  ultimately show ?thesis
    unfolding get_link_pos [OF assms] by blast
qed

theorem get_link_in_channels_witness:
  "(1::int) \<le> 4 \<and> (\<exists>oc ic link. get_link 4 20 10 1 = Some (oc, ic, link) \<and>
     (\<exists>rs. map (\<lambda>k. get_link k 20 10 1) link = map Some rs \<and> ic = sum_list (map fst rs)) \<and>
     get_link 0 20 10 1 = Some (20, 0, []))"
  using get_link_in_channels [where layer = 4 and b = 20 and g = 10 and m = 1]
  by simp

section \<open>Claims about the block\<close>

text \<open>
  C1: the channel count of the output of \<^verbatim>\<open>forward\<close> equals the output-channel total
  declared by \<^verbatim>\<open>__init__\<close>, index 0 contributing \<^verbatim>\<open>base_channels\<close> when
  \<^verbatim>\<open>keepBase\<close> selects it. \<^verbatim>\<open>forward\<close> gathers index 0 under \<^verbatim>\<open>keepBase\<close>, but
  \<^verbatim>\<open>__init__\<close> starts the total at 0 and adds only layer widths. For the block with
  \<open>in_channels = 20\<close>, \<open>growth_rate = 10\<close>, \<open>grmul = 1\<close>, \<open>n_layers = 4\<close> and
  \<^verbatim>\<open>keepBase\<close> set, the declared total is 30 and the output of \<^verbatim>\<open>forward\<close> on an
  input of width 20 has width 50. (Lemma \<open>block_output_width\<close> gives the general
  picture: with at least one layer the output is wider than declared by exactly the
  input width when \<^verbatim>\<open>keepBase\<close> is set, and as wide as declared when it is not.)
\<close>

theorem HarDBlock_keepBase_width_mismatch:
  "(case HarDBlock_init 20 10 1 4 True False False of
      Inl e \<Rightarrow> False
    | Inr b \<Rightarrow> get_out_ch b = 30 \<and> forward b 20 = Inr 50)"
  by code_simp



text \<open>
  C7, as stated: constructing a block with \<open>n_layers < 1\<close> fails with a configuration
  error. \<^verbatim>\<open>__init__\<close> checks nothing: with \<open>n_layers = 0\<close> the loop body never runs and
  a block without layers is returned.
\<close>

theorem HarDBlock_init_no_layers_example:
  "HarDBlock_init 20 10 1 0 False False False =
     Inr \<lparr>keepBase = False, links = [], out_channels = 0, layers = []\<rparr>"
  by code_simp

text \<open>
  C7, amended: constructing a block with \<open>n_layers < 1\<close> raises no error; it returns a
  block with no layers, no link lists and a declared output width of 0.
\<close>

theorem HarDBlock_init_no_layers:
  assumes "n < 1"
  shows "HarDBlock_init c g m n kb ro dw =
     Inr \<lparr>keepBase = kb, links = [], out_channels = 0, layers = []\<rparr>"
  using assms by (simp add: HarDBlock_init_def py_range_def)

theorem HarDBlock_init_no_layers_witness:
  "(-3::int) < 1 \<and> HarDBlock_init 64 14 (17 / 10) (-3) True False True =
     Inr \<lparr>keepBase = True, links = [], out_channels = 0, layers = []\<rparr>"
  using HarDBlock_init_no_layers [where n = "-3" and c = 64 and g = 14 and m = "17 / 10"
      and kb = True and ro = False and dw = True]
  by simp

section \<open>Claims about the network\<close>

text \<open>
  C8: building a network with an architecture other than 68, 85 and 39 fails with a
  \<^verbatim>\<open>ValueError\<close>, whatever the other arguments and the environment; the error is the
  result of the \<^verbatim>\<open>if arch == ...\<close> chain, before any stage is assembled.
\<close>

theorem unsupported_arch:
  assumes "arch \<noteq> 68" and "arch \<noteq> 85" and "arch \<noteq> 39"
  shows "HarDNet_init env depth_wise arch pretrained weight_path =
     Inl (ValueError (''Architecture type '' @ py_str arch @ '' is not supported''))"
  using assms by (simp add: HarDNet_init_def arch_branch_def)

theorem unsupported_arch_witness:
  "(50::int) \<noteq> 68 \<and> (50::int) \<noteq> 85 \<and> (50::int) \<noteq> 39 \<and>
   HarDNet_init hub_env False 50 True ''weights/'' =
     Inl (ValueError ''Architecture type 50 is not supported'')"
  using unsupported_arch [where arch = 50 and env = hub_env and depth_wise = False
      and pretrained = True and weight_path = "''weights/''"]
  by (simp add: py_str_def str_nat.simps)

text \<open>
  C9: constructing the arch-39 network without \<^verbatim>\<open>depth_wise\<close> fails with an
  unbound-variable error for \<^verbatim>\<open>drop_rate\<close>, which the branch for 39 never assigns and
  the classification head reads, whatever \<^verbatim>\<open>pretrained\<close>, \<^verbatim>\<open>weight_path\<close> and the
  environment are; with \<^verbatim>\<open>depth_wise\<close> set (and no pretrained weights requested)
  construction succeeds.
\<close>

theorem arch39_needs_depth_wise:
  "HarDNet_init env False 39 pretrained weight_path = Inl (UnboundLocalError ''drop_rate'') \<and>
   (\<exists>self. HarDNet_init env True 39 False weight_path = Inr self)"
  using HarDNet_init_depth_wise [of 39 env False weight_path]
  by (simp add: HarDNet_init_39_plain)




end
